theory Spec2Isabelle
  imports Main "HOL-Library.AList" "HOL-Library.Sublist"
begin

section \<open>The program\<close>

text \<open>
  \<open>youtube-sync.py\<close> mirrors a remote playlist into a folder. It keeps, in the folder
  \<open>.sync\<close>, a sync config and fetcher options (JSON), the archive ledger
  \<open>sync_archive.json\<close> (title to id), and the download record \<open>archive.txt\<close> that
  youtube_dl reads and appends to. \<open>init\<close> creates the folder and the option files;
  \<open>sync\<close> runs the fetch, learns from the fetcher's log which titles are still there,
  and removes the others: their lines of the download record, their ledger entries and
  their media files.

  The script is modelled as functions on an explicit world (the folder, the media files,
  the printed lines) and an explicit \<open>YoutubeSync\<close> object; an exception is a value, paired
  with the world as it is when the exception leaves the function. Library code is not
  modelled but taken as given: the fetch is a function of the options, the link and the
  world that returns its logger calls, the files it leaves and its result, and is taken
  to touch only the download record and the media files; file-name matching and
  \<open>%\<close> formatting are parameters; a JSON file holds the document written to it; the
  download record is the text as Python's text layer reads and writes it.
\<close>

section \<open>Data model\<close>

text \<open>
  Values of the option dictionaries (\<open>sync_config.conf\<close>, \<open>ytdl_opts.conf\<close>): the scalars
  the script stores and reads. \<open>JNull\<close> is Python's \<open>None\<close>.
\<close>

datatype jval = JNull | JBool bool | JNum int | JStr string

text \<open>
  A Python dict is an association list in insertion order: \<open>d[k] = v\<close> is
  \<open>AList.update k v d\<close> (an existing key keeps its place, a new key goes to the end),
  \<open>d.pop(k, None)\<close> is \<open>AList.delete k d\<close>, \<open>d.get(k)\<close> is \<open>map_of d k\<close>,
  \<open>list(d.keys())\<close> is \<open>map fst d\<close> and \<open>list(d.values())\<close> is \<open>map snd d\<close>.
\<close>

type_synonym jdict = "(string \<times> jval) list"

type_synonym archive = "(string \<times> string) list"

text \<open>Truth value of an option value, as \<open>not x\<close> reads it.\<close>

fun truthy :: "jval \<Rightarrow> bool" where
  "truthy JNull = False"
| "truthy (JBool b) = b"
| "truthy (JNum n) = (n \<noteq> 0)"
| "truthy (JStr s) = (s \<noteq> [])"

datatype error =
    NoPlaylistLink
  | NotYoutubePlaylist
  | IndexError
  | KeyError
  | TypeError
  | ValueError
  | AttributeError
  | FileNotFoundError
  | FileExistsError
  | DownloadError

text \<open>
  A JSON file holds the document \<open>json.dump\<close> was given, and the indentation it was
  written with; \<open>json.load\<close> gives the document back.
\<close>

record 'a json_file =
  indent :: "nat option"
  document :: 'a

text \<open>The \<open>.sync\<close> folder and its four files; \<open>None\<close> is a file that does not exist.\<close>

record config_folder =
  sync_archive_json :: "archive json_file option"
  archive_txt :: "string option"
  sync_config_conf :: "jdict json_file option"
  ytdl_opts_conf :: "jdict json_file option"

text \<open>
  What a run can see and change: the working directory, the \<open>.sync\<close> folder
  (\<open>None\<close> when it does not exist), the paths of the media files in directory order,
  and the lines printed so far.
\<close>

record world =
  cwd :: string
  dot_sync :: "config_folder option"
  media :: "string list"
  stdout :: "string list"

text \<open>
  A \<open>str\<close> object: line 127 of the script compares strings with \<open>is not\<close>, which
  reads the identity of the object, not its text.
\<close>

record pystr =
  obj_id :: nat
  text_of :: string

text \<open>
  The dict \<open>extract_info\<close> returns. An entry of a playlist is \<open>None\<close> (a failed
  download under \<open>ignoreerrors\<close>) or carries a title and an id.
\<close>

record meta =
  meta_type :: "pystr option"
  meta_extractor_key :: "pystr option"
  meta_entries :: "(string \<times> string) option list option"
  meta_title :: "string option"

datatype log_event = Debug string | Warning string | Error string

datatype fetch_return = Returned "meta option" | Raised

text \<open>
  One call of \<open>extract_info(link, download=True)\<close>: the calls it made to the logger, the
  download record and the media files it left behind, and what it returned.
\<close>

record fetch_result =
  fr_log :: "log_event list"
  fr_archive_txt :: "string option"
  fr_media :: "string list"
  fr_return :: fetch_return

text \<open>
  The library code the script calls: youtube_dl's \<open>extract_info\<close> (given the options,
  the link and the world it runs in), the file-name matching of \<open>glob.glob\<close>, and the
  \<open>%\<close> formatting of the output template with the playlist title, the title and the
  extension.
\<close>

record libs =
  extract_info :: "jdict \<Rightarrow> jval \<Rightarrow> world \<Rightarrow> fetch_result"
  fnmatch :: "string \<Rightarrow> string \<Rightarrow> bool"
  percent_format :: "string \<Rightarrow> string \<Rightarrow> string \<Rightarrow> string \<Rightarrow> error + string"

text \<open>
  The \<open>YoutubeSync\<close> object. \<open>remove_list\<close> is also the \<open>songs\<close> dict of the
  \<open>ArchiveCheckLogger\<close> (the same object), and \<open>quiet\<close> is the logger's flag.
\<close>

record youtube_sync =
  config_dir :: string
  valid_dir :: bool
  sync_file :: string
  archive_file :: string
  config_file :: string
  ytdl_opts_file :: string
  sync_config :: jdict
  ytdl_opts :: jdict
  sync_archive :: archive
  remove_list :: archive
  quiet :: jval

type_synonym outcome = "error option \<times> youtube_sync \<times> world"

section \<open>Helpers of the standard library\<close>

definition ytdl_default_opts :: jdict where
  "ytdl_default_opts =
     [(''extractaudio'', JBool True),
      (''audioformat'', JStr ''m4a''),
      (''format'', JStr ''m4a''),
      (''nocheckcertificate'', JBool True),
      (''ignoreerrors'', JBool True),
      (''no_warnings'', JBool True),
      (''noplaylist'', JBool True),
      (''outtmpl'', JStr ''./%(playlist_title)s/%(title)s.%(ext)s'')]"

text \<open>\<open>os.path.join\<close> of two components on a POSIX system.\<close>

definition path_join :: "string \<Rightarrow> string \<Rightarrow> string" where
  "path_join a b =
     (if b \<noteq> [] \<and> hd b = CHR ''/'' then b
      else if a = [] \<or> last a = CHR ''/'' then a @ b
      else a @ ''/'' @ b)"

definition print :: "string \<Rightarrow> world \<Rightarrow> world" where
  "print s w = w\<lparr>stdout := stdout w @ [s]\<rparr>"

text \<open>\<open>os.path.isfile\<close> of a file of the \<open>.sync\<close> folder, named by its field.\<close>

definition isfile :: "(config_folder \<Rightarrow> 'b option) \<Rightarrow> world \<Rightarrow> bool" where
  "isfile filename w =
     (case dot_sync w of None \<Rightarrow> False | Some d \<Rightarrow> filename d \<noteq> None)"

text \<open>
  \<open>str.split()\<close> with no argument: the maximal runs of non-whitespace characters.
  The whitespace characters below code point 256 are listed.
\<close>

definition isspace :: "char \<Rightarrow> bool" where
  "isspace c = (c \<in> set [CHR 0x09, CHR 0x0A, CHR 0x0B, CHR 0x0C, CHR 0x0D,
                         CHR 0x1C, CHR 0x1D, CHR 0x1E, CHR 0x1F, CHR 0x20,
                         CHR 0x85, CHR 0xA0])"

function str_split :: "string \<Rightarrow> string list" where
  "str_split s =
     (case dropWhile isspace s of
        [] \<Rightarrow> []
      | c # cs \<Rightarrow> takeWhile (\<lambda>x. \<not> isspace x) (c # cs)
                 # str_split (dropWhile (\<lambda>x. \<not> isspace x) (c # cs)))"
  by pat_completeness auto
termination
proof (relation "measure length")
  show "wf (measure length)" by simp
next
  fix s :: string and c cs
  assume a: "dropWhile isspace s = c # cs"
  have c: "\<not> isspace c"
    using a hd_dropWhile [of isspace s] by auto
  have "length (dropWhile (\<lambda>x. \<not> isspace x) cs) \<le> length cs"
    by (rule length_dropWhile_le)
  moreover have "length (c # cs) \<le> length s"
    using a length_dropWhile_le [of isspace s] by simp
  ultimately show "(dropWhile (\<lambda>x. \<not> isspace x) (c # cs), s) \<in> measure length"
    using c by simp
qed

declare str_split.simps [simp del]

text \<open>\<open>file.readlines()\<close>: the text cut after each line feed, line feeds kept.\<close>

fun readlines :: "string \<Rightarrow> string list" where
  "readlines [] = []"
| "readlines (c # cs) =
     (if c = CHR 0x0A then [c] # readlines cs
      else (case readlines cs of [] \<Rightarrow> [[c]] | l # ls \<Rightarrow> (c # l) # ls))"

text \<open>\<open>xs.index(x)\<close> for an \<open>x\<close> that occurs in \<open>xs\<close>: the first position.\<close>

definition index_of :: "'a list \<Rightarrow> 'a \<Rightarrow> nat" where
  "index_of xs x = length (takeWhile (\<lambda>y. y \<noteq> x) xs)"

text \<open>
  \<open>glob.glob(path)\<close>: the existing files whose path matches the pattern, in directory
  order; \<open>os.remove\<close> of one of them.
\<close>

definition glob :: "libs \<Rightarrow> string \<Rightarrow> string list \<Rightarrow> string list" where
  "glob lib path files = filter (fnmatch lib path) files"

definition os_remove :: "string \<Rightarrow> string list \<Rightarrow> string list" where
  "os_remove f files = removeAll f files"

section \<open>load_json, write_json\<close>

text \<open>A file name of the \<open>.sync\<close> folder is the field of \<open>config_folder\<close> that holds it.\<close>

definition load_json ::
  "(config_folder \<Rightarrow> 'a json_file option) \<Rightarrow> 'a \<Rightarrow> world \<Rightarrow> 'a" where
  "load_json filename default_val w =
     (if \<not> isfile filename w then default_val
      else (case dot_sync w of
              None \<Rightarrow> default_val
            | Some d \<Rightarrow> (case filename d of None \<Rightarrow> default_val | Some f \<Rightarrow> document f)))"

text \<open>
  \<open>open(filename, 'w')\<close> fails when the folder does not exist. The file is named by the
  update function of its field.
\<close>

definition write_json ::
  "(('a json_file option \<Rightarrow> 'a json_file option) \<Rightarrow> config_folder \<Rightarrow> config_folder)
     \<Rightarrow> 'a \<Rightarrow> bool \<Rightarrow> world \<Rightarrow> error + world" where
  "write_json filename data pretty w =
     (case dot_sync w of
        None \<Rightarrow> Inl FileNotFoundError
      | Some d \<Rightarrow>
          (if pretty
           then Inr (w\<lparr>dot_sync :=
                  Some (filename (\<lambda>_. Some \<lparr>indent = Some 4, document = data\<rparr>) d)\<rparr>)
           else Inr (w\<lparr>dot_sync :=
                  Some (filename (\<lambda>_. Some \<lparr>indent = None, document = data\<rparr>) d)\<rparr>)))"

section \<open>ArchiveCheckLogger\<close>

text \<open>
  \<open>re.match(r'\[download\] (?P<title>.*) has already been recorded in archive', msg)\<close>:
  the message starts with the tag; the title is the longest run of characters other
  than a line feed that is followed by the fixed text (the group is greedy, so the
  longest candidate is tried first).
\<close>

definition download_tag :: string where
  "download_tag = ''[download] ''"

definition recorded_text :: string where
  "recorded_text = '' has already been recorded in archive''"

definition re_match :: "string \<Rightarrow> string option" where
  "re_match msg =
     (if prefix download_tag msg
      then (let rest = drop (length download_tag) msg;
                m = length (takeWhile (\<lambda>c. c \<noteq> CHR 0x0A) rest)
            in (case filter (\<lambda>n. prefix recorded_text (drop n rest)) (rev [0..<Suc m]) of
                  [] \<Rightarrow> None
                | n # _ \<Rightarrow> Some (take n rest)))
      else None)"

definition debug :: "string \<Rightarrow> youtube_sync \<Rightarrow> world \<Rightarrow> youtube_sync \<times> world" where
  "debug msg self w =
     (let w' = (if \<not> truthy (quiet self) then print (''<DEBUG> '' @ msg) w else w)
      in (case re_match msg of
            Some title \<Rightarrow> (self\<lparr>remove_list := AList.delete title (remove_list self)\<rparr>, w')
          | None \<Rightarrow> (self, w')))"

definition warning :: "string \<Rightarrow> youtube_sync \<Rightarrow> world \<Rightarrow> youtube_sync \<times> world" where
  "warning msg self w = (self, print (''<WARNING> '' @ msg) w)"

definition error :: "string \<Rightarrow> youtube_sync \<Rightarrow> world \<Rightarrow> youtube_sync \<times> world" where
  "error msg self w = (self, print (''<ERROR> '' @ msg) w)"

text \<open>The logger calls of one fetch, in order.\<close>

fun logger_call :: "log_event \<Rightarrow> youtube_sync \<times> world \<Rightarrow> youtube_sync \<times> world" where
  "logger_call (Debug msg) (self, w) = debug msg self w"
| "logger_call (Warning msg) (self, w) = warning msg self w"
| "logger_call (Error msg) (self, w) = error msg self w"

fun logger_calls :: "log_event list \<Rightarrow> youtube_sync \<times> world \<Rightarrow> youtube_sync \<times> world" where
  "logger_calls [] sw = sw"
| "logger_calls (ev # evs) sw = logger_calls evs (logger_call ev sw)"

section \<open>YoutubeSync\<close>

text \<open>\<open>__init__\<close>: the object a run starts with, read from the \<open>.sync\<close> folder.\<close>

definition YoutubeSync_new :: "world \<Rightarrow> youtube_sync" where
  "YoutubeSync_new w =
     (let dir = path_join (cwd w) ''.sync'';
          cfg = load_json sync_config_conf [] w;
          opts = load_json ytdl_opts_conf ytdl_default_opts w;
          arch = load_json sync_archive_json [] w;
          q = (case map_of opts ''quiet'' of None \<Rightarrow> JNull | Some v \<Rightarrow> v);
          opts' = (if q \<noteq> JNull then AList.delete ''quiet'' opts else opts);
          q' = (case map_of cfg ''quiet'' of
                  None \<Rightarrow> (if q = JNull then JBool False else q)
                | Some v \<Rightarrow> v)
      in \<lparr>config_dir = dir,
          valid_dir = (dot_sync w \<noteq> None),
          sync_file = path_join dir ''sync_archive.json'',
          archive_file = path_join dir ''archive.txt'',
          config_file = path_join dir ''sync_config.conf'',
          ytdl_opts_file = path_join dir ''ytdl_opts.conf'',
          sync_config = cfg,
          ytdl_opts = opts',
          sync_archive = arch,
          remove_list = arch,
          quiet = q'\<rparr>)"

definition empty_folder :: config_folder where
  "empty_folder =
     \<lparr>sync_archive_json = None, archive_txt = None,
      sync_config_conf = None, ytdl_opts_conf = None\<rparr>"

text \<open>\<open>os.makedirs\<close> of the \<open>.sync\<close> folder.\<close>

definition makedirs :: "world \<Rightarrow> error + world" where
  "makedirs w =
     (case dot_sync w of
        None \<Rightarrow> Inr (w\<lparr>dot_sync := Some empty_folder\<rparr>)
      | Some _ \<Rightarrow> Inl FileExistsError)"

definition init :: "string \<Rightarrow> youtube_sync \<Rightarrow> world \<Rightarrow> outcome" where
  "init playlist_link self0 w0 =
     (let self = self0\<lparr>sync_config :=
                   AList.update ''playlist_link'' (JStr playlist_link) (sync_config self0)\<rparr>
      in (case (if \<not> valid_dir self
                then makedirs (print ''Creating youtube-sync folder...'' w0)
                else Inr w0) of
            Inl e \<Rightarrow> (Some e, self, print ''Creating youtube-sync folder...'' w0)
          | Inr w1 \<Rightarrow>
         (case (if \<not> isfile sync_config_conf w1
                then write_json sync_config_conf_update (sync_config self) True
                       (print ''Creating youtube-sync config file'' w1)
                else Inr w1) of
            Inl e \<Rightarrow> (Some e, self, print ''Creating youtube-sync config file'' w1)
          | Inr w2 \<Rightarrow>
         (case (if \<not> isfile ytdl_opts_conf w2
                then write_json ytdl_opts_conf_update (ytdl_opts self) True
                       (print ''Creating youtube-dl config file'' w2)
                else Inr w2) of
            Inl e \<Rightarrow> (Some e, self, print ''Creating youtube-dl config file'' w2)
          | Inr w3 \<Rightarrow>
              (if \<not> valid_dir self
               then (None, self,
                     print (''Run '' @ [CHR 0x27] @ ''youtube-sync --sync'' @ [CHR 0x27]
                              @ '' to sync this folder'')
                       (print ''Successfully initialized youtube-sync'' w3))
               else (None, self, w3))))))"

subsection \<open>_update_files\<close>

text \<open>
  The loop over the lines of the download record (lines 140 to 147), with the songs
  recorded as removed, the text written back so far and the lines printed.
  \<open>line.split()[1]\<close> raises IndexError on a line of fewer than two fields, and so
  would \<open>rm_titles[...]\<close> on a list of titles shorter than the list of ids.
\<close>

fun scan_lines ::
  "string list \<Rightarrow> string list \<Rightarrow> string list \<Rightarrow> string list \<times> string \<times> string list
     \<Rightarrow> error option \<times> string list \<times> string \<times> string list" where
  "scan_lines rm_ids rm_titles [] acc = (None, acc)"
| "scan_lines rm_ids rm_titles (line # lines) (removed_songs, written, out) =
     (case str_split line of
        _ # song_id # _ \<Rightarrow>
          (if song_id \<in> set rm_ids
           then (if index_of rm_ids song_id < length rm_titles
                 then (let title = rm_titles ! index_of rm_ids song_id
                       in scan_lines rm_ids rm_titles lines
                            (removed_songs @ [title], written,
                             out @ [''Removing song: '' @ title]))
                 else (Some IndexError, removed_songs, written, out))
           else scan_lines rm_ids rm_titles lines (removed_songs, written @ line, out))
      | _ \<Rightarrow> (Some IndexError, removed_songs, written, out))"

text \<open>
  The loop over the removed songs (lines 150 to 155): the title leaves the archive, the
  path pattern is built from the output template, and the first file that matches it
  is removed. A missing template is a KeyError, a template that is no string a
  TypeError, no matching file an IndexError.
\<close>

fun remove_songs ::
  "libs \<Rightarrow> jdict \<Rightarrow> string \<Rightarrow> string list \<Rightarrow> archive \<times> string list
     \<Rightarrow> error option \<times> archive \<times> string list" where
  "remove_songs lib opts playlist_title [] (arch, files) = (None, arch, files)"
| "remove_songs lib opts playlist_title (key # keys) (arch, files) =
     (let arch' = AList.delete key arch
      in (case map_of opts ''outtmpl'' of
            None \<Rightarrow> (Some KeyError, arch', files)
          | Some (JStr outtmpl) \<Rightarrow>
              (case percent_format lib outtmpl playlist_title key ''*'' of
                 Inl e \<Rightarrow> (Some e, arch', files)
               | Inr path \<Rightarrow>
                   (case glob lib path files of
                      [] \<Rightarrow> (Some IndexError, arch', files)
                    | f # _ \<Rightarrow>
                        remove_songs lib opts playlist_title keys
                          (arch', os_remove f files)))
          | Some _ \<Rightarrow> (Some TypeError, arch', files)))"

text \<open>
  The download record is opened with \<open>'r+'\<close>, read, and written again from position 0.
  When the loop completes the file is truncated after what was written; when the loop
  raises, the file is closed as it is: what was written lies over the start of the old
  text.
\<close>

definition update_files :: "libs \<Rightarrow> string \<Rightarrow> youtube_sync \<Rightarrow> world \<Rightarrow> outcome" where
  "update_files lib playlist_title self w =
     (let rm_ids = map snd (remove_list self);
          rm_titles = map fst (remove_list self)
      in (case dot_sync w of
            None \<Rightarrow> (Some FileNotFoundError, self, w)
          | Some d \<Rightarrow>
         (case archive_txt d of
            None \<Rightarrow> (Some FileNotFoundError, self, w)
          | Some content \<Rightarrow>
         (case scan_lines rm_ids rm_titles (readlines content) ([], [], []) of
            (Some e, removed_songs, written, out) \<Rightarrow>
              (Some e, self,
               w\<lparr>dot_sync :=
                    Some (d\<lparr>archive_txt := Some (written @ drop (length written) content)\<rparr>),
                 stdout := stdout w @ out\<rparr>)
          | (None, removed_songs, written, out) \<Rightarrow>
         (let w1 = w\<lparr>dot_sync := Some (d\<lparr>archive_txt := Some written\<rparr>),
                     stdout := stdout w @ out\<rparr>
          in (case remove_songs lib (ytdl_opts self) playlist_title removed_songs
                     (sync_archive self, media w1) of
                (Some e, arch, files) \<Rightarrow>
                  (Some e, self\<lparr>sync_archive := arch\<rparr>, w1\<lparr>media := files\<rparr>)
              | (None, arch, files) \<Rightarrow>
                  (case write_json sync_archive_json_update arch False
                          (w1\<lparr>media := files\<rparr>) of
                     Inl e \<Rightarrow> (Some e, self\<lparr>sync_archive := arch\<rparr>, w1\<lparr>media := files\<rparr>)
                   | Inr w2 \<Rightarrow> (None, self\<lparr>sync_archive := arch\<rparr>, w2))))))))"

subsection \<open>sync\<close>

text \<open>
  The two string literals of line 127, as objects. \<open>x is not y\<close> holds when \<open>x\<close> is
  \<open>None\<close> or another object than \<open>y\<close>.
\<close>

definition lit_playlist :: pystr where
  "lit_playlist = \<lparr>obj_id = 0, text_of = ''playlist''\<rparr>"

definition lit_YoutubePlaylist :: pystr where
  "lit_YoutubePlaylist = \<lparr>obj_id = 1, text_of = ''YoutubePlaylist''\<rparr>"

definition is_not :: "pystr option \<Rightarrow> pystr \<Rightarrow> bool" where
  "is_not x y = (case x of None \<Rightarrow> True | Some s \<Rightarrow> obj_id s \<noteq> obj_id y)"

text \<open>
  The loop of lines 129 and 130; subscripting an entry that is \<open>None\<close> is a TypeError,
  raised with the archive as the earlier entries left it.
\<close>

fun add_entries :: "(string \<times> string) option list \<Rightarrow> archive \<Rightarrow> error option \<times> archive" where
  "add_entries [] arch = (None, arch)"
| "add_entries (None # es) arch = (Some TypeError, arch)"
| "add_entries (Some (title, ident) # es) arch = add_entries es (AList.update title ident arch)"

text \<open>What the fetch left on disk: the download record and the media files.\<close>

definition after_fetch :: "fetch_result \<Rightarrow> world \<Rightarrow> world" where
  "after_fetch fr w =
     w\<lparr>dot_sync := map_option (\<lambda>d. d\<lparr>archive_txt := fr_archive_txt fr\<rparr>) (dot_sync w),
       media := fr_media fr\<rparr>"

text \<open>
  Lines 122 to 126: the options get the path of the download record, the fetch runs and
  calls the logger, and leaves its files behind. The option \<open>logger\<close> set on line 123
  is the object whose methods \<open>logger_calls\<close> runs; it is not kept in the option
  dictionary of the model.
\<close>

definition fetch ::
  "libs \<Rightarrow> jval \<Rightarrow> youtube_sync \<Rightarrow> world \<Rightarrow> fetch_result \<times> youtube_sync \<times> world" where
  "fetch lib link self w =
     (let self1 = self\<lparr>ytdl_opts :=
                    AList.update ''download_archive'' (JStr (archive_file self))
                      (ytdl_opts self)\<rparr>;
          fr = extract_info lib (ytdl_opts self1) link w;
          (self2, w1) = logger_calls (fr_log fr) (self1, w)
      in (fr, self2, after_fetch fr w1))"

definition sync :: "libs \<Rightarrow> youtube_sync \<Rightarrow> world \<Rightarrow> outcome" where
  "sync lib self w =
     (if \<not> valid_dir self
      then (None, self,
            print (''Try running '' @ [CHR 0x27] @ ''youtube-sync --init'' @ [CHR 0x27])
              (print ''Cannot sync to an invalid dir'' w))
      else (case map_of (sync_config self) ''playlist_link'' of
              None \<Rightarrow> (Some NoPlaylistLink, self, w)
            | Some link \<Rightarrow>
         (if \<not> truthy link then (Some NoPlaylistLink, self, w)
          else
         (case fetch lib link self w of (fr, self2, w2) \<Rightarrow>
         (case fr_return fr of
            Raised \<Rightarrow> (Some DownloadError, self2, w2)
          | Returned None \<Rightarrow> (Some AttributeError, self2, w2)
          | Returned (Some m) \<Rightarrow>
         (if is_not (meta_type m) lit_playlist
             \<and> is_not (meta_extractor_key m) lit_YoutubePlaylist
          then (Some NotYoutubePlaylist, self2, w2)
          else (case meta_entries m of
                  None \<Rightarrow> (Some TypeError, self2, w2)
                | Some es \<Rightarrow>
             (case add_entries es (sync_archive self2) of
                (Some e, arch) \<Rightarrow> (Some e, self2\<lparr>sync_archive := arch\<rparr>, w2)
              | (None, arch) \<Rightarrow>
             (case meta_title m of
                None \<Rightarrow> (Some KeyError, self2\<lparr>sync_archive := arch\<rparr>, w2)
              | Some playlist_title \<Rightarrow>
                  update_files lib playlist_title
                    (self2\<lparr>sync_archive := arch\<rparr>) w2)))))))))"

section \<open>One invocation of the command line\<close>

text \<open>\<open>--init link\<close> and \<open>--sync\<close>, each on a freshly constructed object.\<close>

definition run_init :: "string \<Rightarrow> world \<Rightarrow> outcome" where
  "run_init playlist_link w = init playlist_link (YoutubeSync_new w) w"

definition run_sync :: "libs \<Rightarrow> world \<Rightarrow> outcome" where
  "run_sync lib w = sync lib (YoutubeSync_new w) w"

section \<open>Notions used in the statements\<close>

text \<open>The title a logger call prunes from the working set, if any.\<close>

fun reported :: "log_event \<Rightarrow> string option" where
  "reported (Debug msg) = re_match msg"
| "reported (Warning msg) = None"
| "reported (Error msg) = None"

definition reported_titles :: "log_event list \<Rightarrow> string list" where
  "reported_titles evs = List.map_filter reported evs"

text \<open>The id field of a line of the download record: \<open>line.split()[1]\<close>, when there is one.\<close>

definition id_field :: "string \<Rightarrow> string option" where
  "id_field line = (case str_split line of _ # song_id # _ \<Rightarrow> Some song_id | _ \<Rightarrow> None)"

text \<open>
  \<open>rm_titles[rm_ids.index(song_id)]\<close> for an id of the working set: the first title
  with that id.
\<close>

definition title_of_id :: "archive \<Rightarrow> string \<Rightarrow> string" where
  "title_of_id rl song_id = map fst rl ! index_of (map snd rl) song_id"

text \<open>A line whose id is the id of a title of the working set.\<close>

definition removed_line :: "archive \<Rightarrow> string \<Rightarrow> bool" where
  "removed_line rl line =
     (case id_field line of None \<Rightarrow> False | Some song_id \<Rightarrow> song_id \<in> snd ` set rl)"

text \<open>
  The title recorded as removed for a line, if any, and the titles the loop over the
  lines records as removed when no line is short.
\<close>

definition removed_title :: "archive \<Rightarrow> string \<Rightarrow> string option" where
  "removed_title rl line =
     (case id_field line of
        None \<Rightarrow> None
      | Some song_id \<Rightarrow>
          if song_id \<in> snd ` set rl then Some (title_of_id rl song_id) else None)"

definition removed_songs_of :: "archive \<Rightarrow> string \<Rightarrow> string list" where
  "removed_songs_of rl content = List.map_filter (removed_title rl) (readlines content)"

text \<open>The archive ledger as a new run would load it.\<close>

definition ledger :: "world \<Rightarrow> archive" where
  "ledger w = load_json sync_archive_json [] w"

text \<open>The text of the download record, when the file exists.\<close>

definition record_text :: "world \<Rightarrow> string option" where
  "record_text w = (case dot_sync w of None \<Rightarrow> None | Some d \<Rightarrow> archive_txt d)"

text \<open>
  The shape of what \<open>readlines\<close> returns: no line is empty, a line feed is the last
  character of a line or is not in it, and every line but the last ends in one.
\<close>

definition line_ok :: "string \<Rightarrow> bool" where
  "line_ok l = (l \<noteq> [] \<and> CHR 0x0A \<notin> set (butlast l))"

definition wf_lines :: "string list \<Rightarrow> bool" where
  "wf_lines ls = (list_all line_ok ls \<and> list_all (\<lambda>l. last l = CHR 0x0A) (butlast ls))"

text \<open>
  The fetch of a run started in \<open>w\<close>: its result, the object and the world after it;
  the working set (the candidates for removal) after the fetch; the metadata returned
  and its entries (the snapshot).
\<close>

definition fetched :: "libs \<Rightarrow> world \<Rightarrow> fetch_result \<times> youtube_sync \<times> world" where
  "fetched lib w =
     (let self = YoutubeSync_new w
      in fetch lib (case map_of (sync_config self) ''playlist_link'' of
                      None \<Rightarrow> JNull | Some link \<Rightarrow> link) self w)"

definition working_set :: "libs \<Rightarrow> world \<Rightarrow> archive" where
  "working_set lib w = remove_list (fst (snd (fetched lib w)))"

definition world_after_fetch :: "libs \<Rightarrow> world \<Rightarrow> world" where
  "world_after_fetch lib w = snd (snd (fetched lib w))"

definition fetched_meta :: "libs \<Rightarrow> world \<Rightarrow> meta option" where
  "fetched_meta lib w =
     (case fr_return (fst (fetched lib w)) of Returned r \<Rightarrow> r | Raised \<Rightarrow> None)"

definition snapshot :: "libs \<Rightarrow> world \<Rightarrow> (string \<times> string) option list" where
  "snapshot lib w =
     (case fetched_meta lib w of
        None \<Rightarrow> []
      | Some m \<Rightarrow> (case meta_entries m of None \<Rightarrow> [] | Some es \<Rightarrow> es))"

text \<open>The test of line 127.\<close>

definition raises_not_playlist :: "meta \<Rightarrow> bool" where
  "raises_not_playlist m =
     (is_not (meta_type m) lit_playlist \<and> is_not (meta_extractor_key m) lit_YoutubePlaylist)"




text \<open>
  The run gets as far as the call of \<open>_update_files\<close>: the folder exists, a link is
  configured, the fetch returns metadata that passes the test of line 127, with
  entries that are all present, and a title.
\<close>

definition reaches_update_files :: "libs \<Rightarrow> world \<Rightarrow> bool" where
  "reaches_update_files lib w =
     (dot_sync w \<noteq> None
      \<and> (case map_of (sync_config (YoutubeSync_new w)) ''playlist_link'' of
            None \<Rightarrow> False | Some link \<Rightarrow> truthy link)
      \<and> (case fetched_meta lib w of
            None \<Rightarrow> False
          | Some m \<Rightarrow>
              \<not> raises_not_playlist m
              \<and> (case meta_entries m of None \<Rightarrow> False | Some es \<Rightarrow> None \<notin> set es)
              \<and> meta_title m \<noteq> None))"


text \<open>
  An archive with the values of some keys replaced, each at the first place of its key
  (where \<open>d[k] = v\<close> writes).
\<close>

fun overlay :: "(string \<rightharpoonup> string) \<Rightarrow> archive \<Rightarrow> archive" where
  "overlay g [] = []"
| "overlay g ((k, v) # ps) =
     (k, case g k of None \<Rightarrow> v | Some v' \<Rightarrow> v') # overlay (g(k := None)) ps"


section \<open>Example inputs\<close>

text \<open>
  A library for the examples: a fetch with a fixed result, a pattern that ends in a star
  and matches the paths that start with what is before the star, and the default
  template \<open>./%(playlist_title)s/%(title)s.%(ext)s\<close> filled in.
\<close>

definition ex_lib :: "fetch_result \<Rightarrow> libs" where
  "ex_lib fr =
     \<lparr>extract_info = (\<lambda>opts link w. fr),
      fnmatch = (\<lambda>pat f. prefix (butlast pat) f),
      percent_format = (\<lambda>outtmpl pl t ext. Inr (''./'' @ pl @ ''/'' @ t @ ''.'' @ ext))\<rparr>"

definition ex_folder :: "archive \<Rightarrow> string \<Rightarrow> config_folder" where
  "ex_folder arch txt =
     \<lparr>sync_archive_json = Some \<lparr>indent = None, document = arch\<rparr>,
      archive_txt = Some txt,
      sync_config_conf =
        Some \<lparr>indent = Some 4, document = [(''playlist_link'', JStr ''A'')]\<rparr>,
      ytdl_opts_conf = Some \<lparr>indent = Some 4, document = ytdl_default_opts\<rparr>\<rparr>"

definition ex_world :: "archive \<Rightarrow> string \<Rightarrow> string list \<Rightarrow> world" where
  "ex_world arch txt files =
     \<lparr>cwd = ''/m'', dot_sync = Some (ex_folder arch txt), media = files, stdout = []\<rparr>"

definition ex_meta :: "(string \<times> string) option list \<Rightarrow> meta" where
  "ex_meta es =
     \<lparr>meta_type = Some lit_playlist, meta_extractor_key = None,
      meta_entries = Some es, meta_title = Some ''PL''\<rparr>"

definition ex_fetch ::
  "log_event list \<Rightarrow> string \<Rightarrow> string list \<Rightarrow> (string \<times> string) option list
     \<Rightarrow> fetch_result" where
  "ex_fetch evs txt files es =
     \<lparr>fr_log = evs, fr_archive_txt = Some txt, fr_media = files,
      fr_return = Returned (Some (ex_meta es))\<rparr>"

definition uninit_world :: world where
  "uninit_world = \<lparr>cwd = ''/m'', dot_sync = None, media = [], stdout = []\<rparr>"

definition nolink_world :: world where
  "nolink_world =
     \<lparr>cwd = ''/m'',
      dot_sync = Some \<lparr>sync_archive_json = None, archive_txt = None,
                       sync_config_conf = Some \<lparr>indent = Some 4, document = [(''quiet'', JBool True)]\<rparr>,
                       ytdl_opts_conf = None\<rparr>,
      media = [], stdout = []\<rparr>"

text \<open>A download record with a blank line.\<close>

definition blank_text :: string where
  "blank_text = ''youtube id1\<newline>\<newline>youtube id2\<newline>''"

definition blank_world :: world where
  "blank_world = ex_world [(''Song A'', ''id1''), (''Song B'', ''id2'')] blank_text []"

definition blank_lib :: libs where
  "blank_lib = ex_lib (ex_fetch [] blank_text [] [])"

text \<open>
  The scenarios of the statements below: a title that left the playlist; a ledger entry
  whose id is not in the download record; a playlist with two entries of one title; a
  title used again after its entry left the playlist; the metadata of a video and of
  a playlist.
\<close>

definition song_a_recorded :: log_event where
  "song_a_recorded = Debug ''[download] Song A has already been recorded in archive''"

definition scen_world :: world where
  "scen_world =
     ex_world [(''Song A'', ''id1''), (''Song B'', ''id2'')]
       ''youtube id1\<newline>youtube id2\<newline>''
       [''./PL/Song A.m4a'', ''./PL/Song B.m4a'']"

definition scen_lib :: libs where
  "scen_lib =
     ex_lib (ex_fetch [song_a_recorded] ''youtube id1\<newline>youtube id2\<newline>''
       [''./PL/Song A.m4a'', ''./PL/Song B.m4a''] [])"

definition unlisted_world :: world where
  "unlisted_world =
     ex_world [(''Song B'', ''id2'')] ''youtube id1\<newline>'' [''./PL/Song B.m4a'']"

definition unlisted_lib :: libs where
  "unlisted_lib = ex_lib (ex_fetch [] ''youtube id1\<newline>'' [''./PL/Song B.m4a''] [])"

definition dup_world :: world where
  "dup_world = ex_world [(''Song A'', ''id1'')] ''youtube id1\<newline>'' [''./PL/Song A.m4a'']"

definition dup_lib :: libs where
  "dup_lib =
     ex_lib (ex_fetch [song_a_recorded] ''youtube id1\<newline>youtube id9\<newline>''
       [''./PL/Song A.m4a''] [Some (''Song A'', ''id1''), Some (''Song A'', ''id9'')])"

definition same_lib :: libs where
  "same_lib =
     ex_lib (ex_fetch [song_a_recorded] ''youtube id1\<newline>''
       [''./PL/Song A.m4a''] [Some (''Song A'', ''id1'')])"

definition reused_world :: world where
  "reused_world = ex_world [(''T'', ''a'')] ''youtube a\<newline>'' [''./PL/T.m4a'']"

definition reused_lib :: libs where
  "reused_lib =
     ex_lib (ex_fetch [] ''youtube a\<newline>youtube b\<newline>youtube c\<newline>''
       [''./PL/T.m4a''] [Some (''T'', ''b''), Some (''T'', ''c'')])"

definition fresh_world :: world where
  "fresh_world = ex_world [] [] []"

definition fresh_lib :: libs where
  "fresh_lib =
     ex_lib (ex_fetch [] ''youtube b\<newline>youtube c\<newline>''
       [''./PL/T.m4a''] [Some (''T'', ''b''), Some (''T'', ''c'')])"







section \<open>Facts about the parts of a run\<close>

subsection \<open>logger\<close>

lemma logger_call_frame:
  assumes "logger_call ev (self, w) = (self', w')"
  shows "sync_archive self' = sync_archive self" "ytdl_opts self' = ytdl_opts self"
    "sync_config self' = sync_config self" "valid_dir self' = valid_dir self"
    "quiet self' = quiet self"
    "dot_sync w' = dot_sync w" "media w' = media w" "cwd w' = cwd w"
  using assms
  by (cases ev; auto simp: debug_def warning_def error_def print_def Let_def split: option.splits if_splits)+

lemma logger_call_remove_list:
  assumes "logger_call ev (self, w) = (self', w')"
  shows "remove_list self' =
         (case reported ev of None \<Rightarrow> remove_list self
          | Some t \<Rightarrow> AList.delete t (remove_list self))"
  using assms
  by (cases ev; auto simp: debug_def warning_def error_def Let_def split: option.splits)

lemma logger_calls_frame:
  assumes "logger_calls evs (self, w) = (self', w')"
  shows "sync_archive self' = sync_archive self \<and> ytdl_opts self' = ytdl_opts self
    \<and> sync_config self' = sync_config self \<and> valid_dir self' = valid_dir self
    \<and> dot_sync w' = dot_sync w \<and> media w' = media w \<and> cwd w' = cwd w"
  using assms
proof (induction evs arbitrary: self w)
  case Nil
  then show ?case by simp
next
  case (Cons ev evs)
  obtain s1 w1 where step: "logger_call ev (self, w) = (s1, w1)"
    by (cases "logger_call ev (self, w)")
  with Cons.prems have "logger_calls evs (s1, w1) = (self', w')" by simp
  from Cons.IH [OF this] logger_call_frame [OF step] show ?case by simp
qed

lemma logger_calls_remove_list:
  assumes "logger_calls evs (self, w) = (self', w')"
  shows "remove_list self' =
         filter (\<lambda>p. fst p \<notin> set (reported_titles evs)) (remove_list self)"
  using assms
proof (induction evs arbitrary: self w)
  case Nil
  then show ?case by (simp add: reported_titles_def)
next
  case (Cons ev evs)
  obtain s1 w1 where step: "logger_call ev (self, w) = (s1, w1)"
    by (cases "logger_call ev (self, w)")
  with Cons.prems have rest: "logger_calls evs (s1, w1) = (self', w')" by simp
  have "remove_list self' = filter (\<lambda>p. fst p \<notin> set (reported_titles evs)) (remove_list s1)"
    by (rule Cons.IH [OF rest])
  also have "\<dots> = filter (\<lambda>p. fst p \<notin> set (reported_titles (ev # evs))) (remove_list self)"
    using logger_call_remove_list [OF step]
    by (cases "reported ev")
       (auto simp: reported_titles_def AList.delete_eq intro: filter_cong)
  finally show ?case .
qed

subsection \<open>fetch\<close>

lemma fetch_facts:
  assumes "fetch lib link self w = (fr, self2, w2)"
  shows "sync_archive self2 = sync_archive self"
    and "remove_list self2 = filter (\<lambda>p. fst p \<notin> set (reported_titles (fr_log fr))) (remove_list self)"
    and "ytdl_opts self2 = AList.update ''download_archive'' (JStr (archive_file self)) (ytdl_opts self)"
    and "dot_sync w2 = map_option (\<lambda>d. d\<lparr>archive_txt := fr_archive_txt fr\<rparr>) (dot_sync w)"
    and "media w2 = fr_media fr"
proof -
  define self1 where "self1 = self\<lparr>ytdl_opts :=
      AList.update ''download_archive'' (JStr (archive_file self)) (ytdl_opts self)\<rparr>"
  define fr' where "fr' = extract_info lib (ytdl_opts self1) link w"
  obtain s w1 where lc: "logger_calls (fr_log fr') (self1, w) = (s, w1)"
    by (cases "logger_calls (fr_log fr') (self1, w)")
  from assms have eq: "fr' = fr" "s = self2" "after_fetch fr' w1 = w2"
    by (auto simp: fetch_def Let_def self1_def [symmetric] fr'_def [symmetric] lc)
  note fr = logger_calls_frame [OF lc] and rl = logger_calls_remove_list [OF lc]
  show "sync_archive self2 = sync_archive self" using fr eq by (auto simp: self1_def)
  show "remove_list self2 = filter (\<lambda>p. fst p \<notin> set (reported_titles (fr_log fr))) (remove_list self)"
    using rl eq by (auto simp: self1_def)
  show "ytdl_opts self2 = AList.update ''download_archive'' (JStr (archive_file self)) (ytdl_opts self)"
    using fr eq by (auto simp: self1_def)
  show "dot_sync w2 = map_option (\<lambda>d. d\<lparr>archive_txt := fr_archive_txt fr\<rparr>) (dot_sync w)"
    using fr eq by (auto simp: after_fetch_def)
  show "media w2 = fr_media fr" using eq by (auto simp: after_fetch_def)
qed

subsection \<open>readlines\<close>


subsection \<open>scan_lines\<close>

lemma index_of_less: "x \<in> set xs \<Longrightarrow> index_of xs x < length xs"
  by (induction xs) (auto simp: index_of_def)

lemma scan_lines_Cons:
  "scan_lines (map snd rl) (map fst rl) (line # lines) (removed_songs, written, out) =
     (case id_field line of
        None \<Rightarrow> (Some IndexError, removed_songs, written, out)
      | Some song_id \<Rightarrow>
          if removed_line rl line
          then scan_lines (map snd rl) (map fst rl) lines
                 (removed_songs @ [title_of_id rl song_id], written,
                  out @ [''Removing song: '' @ title_of_id rl song_id])
          else scan_lines (map snd rl) (map fst rl) lines (removed_songs, written @ line, out))"
proof -
  have "index_of (map snd rl) song_id < length (map fst rl)"
    if "song_id \<in> set (map snd rl)" for song_id
    using index_of_less [OF that] by simp
  then show ?thesis
    by (simp add: id_field_def removed_line_def title_of_id_def Let_def split: list.splits)
qed

lemma scan_lines_result:
  "scan_lines (map snd rl) (map fst rl) lines (removed_songs, written, out) =
     (let pre = takeWhile (\<lambda>l. id_field l \<noteq> None) lines;
          hits = filter (removed_line rl) pre
      in (if \<forall>l \<in> set lines. id_field l \<noteq> None then None else Some IndexError,
          removed_songs @ map (\<lambda>l. title_of_id rl (the (id_field l))) hits,
          written @ concat (filter (\<lambda>l. \<not> removed_line rl l) pre),
          out @ map (\<lambda>l. ''Removing song: '' @ title_of_id rl (the (id_field l))) hits))"
proof (induction lines arbitrary: removed_songs written out)
  case Nil
  then show ?case by simp
next
  case (Cons line lines)
  show ?case
  proof (cases "id_field line")
    case None
    then show ?thesis by (simp add: scan_lines_Cons del: scan_lines.simps)
  next
    case (Some song_id)
    then show ?thesis
      by (simp add: scan_lines_Cons Cons.IH Let_def del: scan_lines.simps)
  qed
qed


subsection \<open>add_entries\<close>

lemma add_entries_append:
  "add_entries (xs @ ys) arch =
     (case add_entries xs arch of
        (None, arch1) \<Rightarrow> add_entries ys arch1
      | (Some e, arch1) \<Rightarrow> (Some e, arch1))"
  by (induction xs arch rule: add_entries.induct) auto

lemma add_entries_other:
  assumes "add_entries es arch = (r, arch')" and "\<forall>i. Some (t, i) \<notin> set es"
  shows "map_of arch' t = map_of arch t"
  using assms
  by (induction es arch rule: add_entries.induct) (auto simp: update_conv')

lemma add_entries_same:
  assumes "add_entries es arch = (r, arch')" and "map_of arch t = Some i"
      and "\<forall>i'. Some (t, i') \<in> set es \<longrightarrow> i' = i"
  shows "map_of arch' t = Some i"
  using assms
  by (induction es arch rule: add_entries.induct) (auto simp: update_conv')

lemma add_entries_known:
  assumes "\<forall>t i. Some (t, i) \<in> set es \<longrightarrow> map_of arch t = Some i"
  shows "snd (add_entries es arch) = arch"
  using assms
  by (induction es arch rule: add_entries.induct) (auto simp: update_triv)

lemma add_entries_later:
  assumes "add_entries (pre @ Some (t, b) # post) arch = (None, arch')"
      and "\<forall>i. Some (t, i) \<notin> set post"
  shows "map_of arch' t = Some b"
proof -
  obtain r1 a1 where p: "add_entries pre arch = (r1, a1)"
    by (cases "add_entries pre arch")
  with assms(1) have r1: "r1 = None"
    by (cases r1) (simp_all add: add_entries_append)
  with assms(1) p have "add_entries post (AList.update t b a1) = (None, arch')"
    by (simp add: add_entries_append)
  from add_entries_other [OF this assms(2)] show ?thesis
    by (simp add: update_conv')
qed

lemma overlay_keys: "map fst (overlay g al) = map fst al"
  by (induction al arbitrary: g) auto









subsection \<open>remove_songs\<close>

lemma remove_songs_ok:
  assumes "remove_songs lib opts pt keys (arch, files) = (None, arch', files')"
  shows "arch' = filter (\<lambda>p. fst p \<notin> set keys) arch
         \<and> set files' \<subseteq> set files
         \<and> (\<forall>k \<in> set keys. \<exists>outtmpl path f.
               map_of opts ''outtmpl'' = Some (JStr outtmpl)
               \<and> percent_format lib outtmpl pt k ''*'' = Inr path
               \<and> f \<in> set files \<and> fnmatch lib path f \<and> f \<notin> set files')"
  using assms
proof (induction keys arbitrary: arch files)
  case Nil
  then show ?case by simp
next
  case (Cons key keys)
  from Cons.prems obtain outtmpl path f fs where
    o: "map_of opts ''outtmpl'' = Some (JStr outtmpl)" and
    p: "percent_format lib outtmpl pt key ''*'' = Inr path" and
    g: "glob lib path files = f # fs" and
    rest: "remove_songs lib opts pt keys (AList.delete key arch, os_remove f files)
             = (None, arch', files')"
    by (auto simp: Let_def split: option.splits jval.splits sum.splits list.splits)
  note ih = Cons.IH [OF rest]
  from g have fin: "f \<in> set files" and fm: "fnmatch lib path f"
    by (auto simp: glob_def filter_eq_Cons_iff)
  have sub: "set (os_remove f files) \<subseteq> set files" and gone: "f \<notin> set (os_remove f files)"
    by (auto simp: os_remove_def)
  have a: "arch' = filter (\<lambda>p. fst p \<notin> set (key # keys)) arch"
    using ih by (auto simp: AList.delete_eq intro: filter_cong)
  have b: "set files' \<subseteq> set files" using ih sub by blast
  have c: "\<exists>outtmpl path f.
               map_of opts ''outtmpl'' = Some (JStr outtmpl)
               \<and> percent_format lib outtmpl pt k ''*'' = Inr path
               \<and> f \<in> set files \<and> fnmatch lib path f \<and> f \<notin> set files'"
    if "k \<in> set (key # keys)" for k
  proof (cases "k = key")
    case True
    have "f \<notin> set files'" using ih gone by blast
    with o p fin fm True show ?thesis by blast
  next
    case False
    with that have "k \<in> set keys" by simp
    with ih obtain o' p' f' where
      "map_of opts ''outtmpl'' = Some (JStr o')" "percent_format lib o' pt k ''*'' = Inr p'"
      "f' \<in> set (os_remove f files)" "fnmatch lib p' f'" "f' \<notin> set files'"
      by blast
    with sub show ?thesis by blast
  qed
  from a b c show ?case by blast
qed

subsection \<open>update_files\<close>

lemma removed_songs_of_eq:
  "removed_songs_of rl content =
     map (\<lambda>l. title_of_id rl (the (id_field l)))
       (filter (removed_line rl) (readlines content))"
proof -
  have "List.map_filter (removed_title rl) ls =
          map (\<lambda>l. title_of_id rl (the (id_field l))) (filter (removed_line rl) ls)" for ls
    by (induction ls)
       (auto simp: removed_title_def removed_line_def split: option.splits)
  then show ?thesis by (simp add: removed_songs_of_def)
qed

lemma scan_lines_ok:
  assumes "\<forall>l \<in> set lines. id_field l \<noteq> None"
  shows "scan_lines (map snd rl) (map fst rl) lines (removed_songs, written, out) =
     (None,
      removed_songs @ map (\<lambda>l. title_of_id rl (the (id_field l))) (filter (removed_line rl) lines),
      written @ concat (filter (\<lambda>l. \<not> removed_line rl l) lines),
      out @ map (\<lambda>l. ''Removing song: '' @ title_of_id rl (the (id_field l)))
              (filter (removed_line rl) lines))"
proof -
  have tw: "takeWhile (\<lambda>l. id_field l \<noteq> None) lines = lines"
    using assms by simp
  have c: "(\<forall>l \<in> set lines. id_field l \<noteq> None) = True"
    using assms by simp
  show ?thesis
    by (simp only: scan_lines_result Let_def tw c if_True)
qed

lemma scan_lines_bad:
  assumes "\<not> (\<forall>l \<in> set lines. id_field l \<noteq> None)"
  shows "fst (scan_lines (map snd rl) (map fst rl) lines acc) = Some IndexError"
proof -
  obtain a b c where acc: "acc = (a, b, c)" by (cases acc)
  have c: "(\<forall>l \<in> set lines. id_field l \<noteq> None) = False"
    using assms by simp
  show ?thesis
    unfolding acc by (simp only: scan_lines_result Let_def c if_False fst_conv)
qed

lemma update_files_ok:
  assumes "update_files lib pt self w = (None, self', w')"
  shows "\<exists>d content arch files.
           dot_sync w = Some d \<and> archive_txt d = Some content
           \<and> (\<forall>l \<in> set (readlines content). id_field l \<noteq> None)
           \<and> remove_songs lib (ytdl_opts self) pt
                (removed_songs_of (remove_list self) content)
                (sync_archive self, media w) = (None, arch, files)
           \<and> dot_sync w' = Some (d\<lparr>archive_txt :=
                  Some (concat (filter (\<lambda>l. \<not> removed_line (remove_list self) l)
                                  (readlines content))),
                  sync_archive_json := Some \<lparr>indent = None, document = arch\<rparr>\<rparr>)
           \<and> media w' = files \<and> sync_archive self' = arch"
proof -
  from assms obtain d content where
    d: "dot_sync w = Some d" and t: "archive_txt d = Some content"
    by (auto simp: update_files_def Let_def split: option.splits)
  let ?rl = "remove_list self"
  have ok: "\<forall>l \<in> set (readlines content). id_field l \<noteq> None"
  proof (rule ccontr)
    assume "\<not> ?thesis"
    from scan_lines_bad [OF this, of ?rl "([], [], [])"]
    have "fst (update_files lib pt self w) = Some IndexError"
      by (auto simp: update_files_def Let_def d t split: prod.splits option.splits)
    with assms show False by simp
  qed
  note sc = scan_lines_ok [OF ok, of ?rl "[]" "[]" "[]"]
  obtain r arch files where
    rs: "remove_songs lib (ytdl_opts self) pt (removed_songs_of ?rl content)
           (sync_archive self, media w) = (r, arch, files)"
    by (cases "remove_songs lib (ytdl_opts self) pt (removed_songs_of ?rl content)
           (sync_archive self, media w)")
  have r: "r = None"
  proof (cases r)
    case (Some e)
    with assms rs sc show ?thesis
      by (simp add: update_files_def Let_def d t removed_songs_of_eq)
  qed simp
  from assms rs sc r have "dot_sync w' = Some (d\<lparr>archive_txt :=
                  Some (concat (filter (\<lambda>l. \<not> removed_line ?rl l) (readlines content))),
                  sync_archive_json := Some \<lparr>indent = None, document = arch\<rparr>\<rparr>)"
     and "media w' = files" and "sync_archive self' = arch"
    by (auto simp: update_files_def Let_def d t removed_songs_of_eq write_json_def)
  with d t ok rs r show ?thesis by blast
qed

subsection \<open>sync\<close>

lemma sync_ok:
  assumes "sync lib self w = (None, self', w')" and "valid_dir self"
  shows "\<exists>link fr self2 w2 m es arch pt.
           map_of (sync_config self) ''playlist_link'' = Some link \<and> truthy link
           \<and> fetch lib link self w = (fr, self2, w2)
           \<and> fr_return fr = Returned (Some m)
           \<and> \<not> (is_not (meta_type m) lit_playlist
                 \<and> is_not (meta_extractor_key m) lit_YoutubePlaylist)
           \<and> meta_entries m = Some es
           \<and> add_entries es (sync_archive self2) = (None, arch)
           \<and> meta_title m = Some pt
           \<and> update_files lib pt (self2\<lparr>sync_archive := arch\<rparr>) w2 = (None, self', w')"
  using assms
  by (auto simp: sync_def split: option.splits if_splits prod.splits fetch_return.splits)


subsection \<open>str_split\<close>

lemma str_split_Nil [simp]: "str_split [] = []"
  by (simp add: str_split.simps)

lemma str_split_Cons:
  "str_split (c # s) =
     (if isspace c then str_split s
      else takeWhile (\<lambda>x. \<not> isspace x) (c # s)
             # str_split (dropWhile (\<lambda>x. \<not> isspace x) s))"
  by (subst str_split.simps, subst (2) str_split.simps) simp

subsection \<open>A whole run\<close>

lemma valid_dir_new [simp]: "valid_dir (YoutubeSync_new w) = (dot_sync w \<noteq> None)"
  by (simp add: YoutubeSync_new_def Let_def)

lemma sync_archive_new [simp]: "sync_archive (YoutubeSync_new w) = ledger w"
  by (simp add: YoutubeSync_new_def Let_def ledger_def)

lemma remove_list_new [simp]: "remove_list (YoutubeSync_new w) = ledger w"
  by (simp add: YoutubeSync_new_def Let_def ledger_def)

lemma add_entries_total: "None \<notin> set es \<Longrightarrow> fst (add_entries es arch) = None"
  by (induction es arch rule: add_entries.induct) auto

lemma run_sync_ok:
  assumes "run_sync lib w = (None, self', w')" and "dot_sync w \<noteq> None"
  shows "\<exists>fr self2 m es arch pt.
           fetched lib w = (fr, self2, world_after_fetch lib w)
           \<and> sync_archive self2 = ledger w
           \<and> remove_list self2 = working_set lib w
           \<and> ytdl_opts self2 = AList.update ''download_archive''
                 (JStr (archive_file (YoutubeSync_new w))) (ytdl_opts (YoutubeSync_new w))
           \<and> fetched_meta lib w = Some m
           \<and> snapshot lib w = es
           \<and> add_entries es (ledger w) = (None, arch)
           \<and> meta_title m = Some pt
           \<and> update_files lib pt (self2\<lparr>sync_archive := arch\<rparr>) (world_after_fetch lib w)
               = (None, self', w')"
proof -
  from assms have s: "sync lib (YoutubeSync_new w) w = (None, self', w')"
    and v: "valid_dir (YoutubeSync_new w)"
    by (simp_all add: run_sync_def)
  from sync_ok [OF s v] obtain link fr self2 w2 m es arch pt where
    l: "map_of (sync_config (YoutubeSync_new w)) ''playlist_link'' = Some link" and
    f: "fetch lib link (YoutubeSync_new w) w = (fr, self2, w2)" and
    r: "fr_return fr = Returned (Some m)" and
    e: "meta_entries m = Some es" and
    a: "add_entries es (sync_archive self2) = (None, arch)" and
    t: "meta_title m = Some pt" and
    u: "update_files lib pt (self2\<lparr>sync_archive := arch\<rparr>) w2 = (None, self', w')"
    by blast
  have fd: "fetched lib w = (fr, self2, w2)"
    by (simp add: fetched_def Let_def l f)
  note ff = fetch_facts [OF f]
  have "world_after_fetch lib w = w2" by (simp add: world_after_fetch_def fd)
  moreover have "working_set lib w = remove_list self2" by (simp add: working_set_def fd)
  moreover have "fetched_meta lib w = Some m" by (simp add: fetched_meta_def fd r)
  moreover have "snapshot lib w = es" by (simp add: snapshot_def fetched_meta_def fd r e)
  moreover have "sync_archive self2 = ledger w" using ff(1) by simp
  ultimately show ?thesis using fd a t u ff(3) by auto
qed

lemma run_sync_reaches:
  assumes "reaches_update_files lib w"
  shows "\<exists>self2 arch pt.
           remove_list self2 = working_set lib w
           \<and> run_sync lib w
               = update_files lib pt (self2\<lparr>sync_archive := arch\<rparr>) (world_after_fetch lib w)"
proof -
  obtain fr self2 w2 where fd: "fetched lib w = (fr, self2, w2)"
    by (cases "fetched lib w")
  from assms obtain link m es pt where
    d: "dot_sync w \<noteq> None" and
    l: "map_of (sync_config (YoutubeSync_new w)) ''playlist_link'' = Some link" and
    tl: "truthy link" and
    fm: "fetched_meta lib w = Some m" and
    np: "\<not> raises_not_playlist m" and
    e: "meta_entries m = Some es" and ne: "None \<notin> set es" and
    t: "meta_title m = Some pt"
    by (auto simp: reaches_update_files_def split: option.splits)
  from fd l have f: "fetch lib link (YoutubeSync_new w) w = (fr, self2, w2)"
    by (simp add: fetched_def Let_def)
  from fm fd have r: "fr_return fr = Returned (Some m)"
    by (auto simp: fetched_meta_def split: fetch_return.splits)
  obtain arch where a: "add_entries es (sync_archive self2) = (None, arch)"
    using add_entries_total [OF ne, of "sync_archive self2"]
    by (cases "add_entries es (sync_archive self2)") auto
  have "run_sync lib w = update_files lib pt (self2\<lparr>sync_archive := arch\<rparr>) w2"
    using d l tl f r np e a t
    by (auto simp: run_sync_def sync_def raises_not_playlist_def)
  moreover have "world_after_fetch lib w = w2" by (simp add: world_after_fetch_def fd)
  moreover have "working_set lib w = remove_list self2" by (simp add: working_set_def fd)
  ultimately show ?thesis by metis
qed

lemma update_files_short_line:
  assumes "record_text w = Some content" and "line \<in> set (readlines content)"
      and "length (str_split line) < 2"
  shows "fst (update_files lib pt self w) = Some IndexError
         \<and> map_option sync_archive_json (dot_sync (snd (snd (update_files lib pt self w))))
             = map_option sync_archive_json (dot_sync w)
         \<and> media (snd (snd (update_files lib pt self w))) = media w"
proof -
  from assms(1) obtain d where d: "dot_sync w = Some d" and t: "archive_txt d = Some content"
    by (auto simp: record_text_def split: option.splits)
  from assms(3) have "id_field line = None"
    by (auto simp: id_field_def split: list.splits)
  with assms(2) have bad: "\<not> (\<forall>l \<in> set (readlines content). id_field l \<noteq> None)"
    by blast
  obtain e r wr out where
    sc: "scan_lines (map snd (remove_list self)) (map fst (remove_list self))
           (readlines content) ([], [], []) = (e, r, wr, out)"
    by (metis prod_cases4)
  with scan_lines_bad [OF bad, of "remove_list self" "([], [], [])"]
  have e: "e = Some IndexError" by simp
  show ?thesis
    by (simp add: update_files_def Let_def d t sc e)
qed


subsection \<open>Lines and the working set\<close>

lemma readlines_one: "l \<noteq> [] \<Longrightarrow> CHR 0x0A \<notin> set (butlast l) \<Longrightarrow> readlines l = [l]"
  by (induction l) (auto split: if_splits)

lemma readlines_terminated:
  "CHR 0x0A \<notin> set body \<Longrightarrow>
   readlines (body @ CHR 0x0A # rest) = (body @ [CHR 0x0A]) # readlines rest"
  by (induction body) auto

lemma wf_lines_readlines: "wf_lines (readlines s)"
proof (induction s)
  case Nil
  then show ?case by (simp add: wf_lines_def)
next
  case (Cons c cs)
  then show ?case
    by (cases "readlines cs") (auto simp: wf_lines_def line_ok_def)
qed

lemma butlast_filter_subset: "set (butlast (filter P xs)) \<subseteq> set (butlast xs)"
proof (induction xs)
  case Nil
  then show ?case by simp
next
  case (Cons x xs)
  then show ?case by (cases "filter P xs = []") (auto simp: filter_empty_conv)
qed

lemma wf_lines_filter: "wf_lines ls \<Longrightarrow> wf_lines (filter P ls)"
  using butlast_filter_subset [of P ls]
  by (auto simp: wf_lines_def list_all_iff)

lemma readlines_concat: "wf_lines ls \<Longrightarrow> readlines (concat ls) = ls"
proof (induction ls)
  case Nil
  then show ?case by simp
next
  case (Cons l ls)
  show ?case
  proof (cases ls)
    case Nil
    with Cons.prems show ?thesis
      by (simp add: wf_lines_def line_ok_def readlines_one)
  next
    case (Cons l' ls')
    with Cons.prems have ok: "l \<noteq> []" "CHR 0x0A \<notin> set (butlast l)" "last l = CHR 0x0A"
      and wf: "wf_lines ls"
      by (auto simp: wf_lines_def line_ok_def)
    from ok have l: "l = butlast l @ [CHR 0x0A]"
      by (metis append_butlast_last_id)
    have "readlines (concat (l # ls)) = readlines (butlast l @ CHR 0x0A # concat ls)"
      by (subst l) simp
    also have "\<dots> = (butlast l @ [CHR 0x0A]) # readlines (concat ls)"
      by (rule readlines_terminated [OF ok(2)])
    also have "\<dots> = l # ls"
      using l Cons.IH [OF wf] by simp
    finally show ?thesis .
  qed
qed

lemma readlines_concat_filter:
  "readlines (concat (filter P (readlines s))) = filter P (readlines s)"
  by (rule readlines_concat [OF wf_lines_filter [OF wf_lines_readlines]])

lemma map_of_filter_keys:
  "map_of (filter (\<lambda>p. fst p \<notin> S) xs) t = (if t \<in> S then None else map_of xs t)"
  by (induction xs) auto

lemma title_of_id_mem: "song_id \<in> snd ` set rl \<Longrightarrow> title_of_id rl song_id \<in> fst ` set rl"
proof -
  assume "song_id \<in> snd ` set rl"
  then have "song_id \<in> set (map snd rl)" by simp
  then have "index_of (map snd rl) song_id < length (map fst rl)"
    using index_of_less [of song_id "map snd rl"] by simp
  then have "map fst rl ! index_of (map snd rl) song_id \<in> set (map fst rl)"
    by (rule nth_mem)
  then show ?thesis by (simp add: title_of_id_def)
qed

lemma index_of_append: "x \<notin> set xs \<Longrightarrow> index_of (xs @ x # ys) x = length xs"
  by (induction xs) (auto simp: index_of_def)

lemma title_of_id_first:
  assumes "rl = pre @ (t, i) # post" and "i \<notin> snd ` set pre"
  shows "title_of_id rl i = t"
proof -
  have "index_of (map snd pre @ i # map snd post) i = length (map snd pre)"
    by (rule index_of_append) (use assms(2) in simp)
  then show ?thesis
    by (simp add: title_of_id_def assms(1) nth_append)
qed

lemma removed_songs_subset: "set (removed_songs_of rl content) \<subseteq> fst ` set rl"
  by (auto simp: removed_songs_of_eq removed_line_def split: option.splits
        intro!: title_of_id_mem)

lemma removed_songs_mem:
  assumes "l \<in> set (readlines content)" and "id_field l = Some i" and "i \<in> snd ` set rl"
  shows "title_of_id rl i \<in> set (removed_songs_of rl content)"
proof -
  have "removed_line rl l" using assms(2,3) by (simp add: removed_line_def)
  with assms(1) have "l \<in> set (filter (removed_line rl) (readlines content))" by simp
  then have "title_of_id rl (the (id_field l))
               \<in> (\<lambda>l. title_of_id rl (the (id_field l)))
                    ` set (filter (removed_line rl) (readlines content))"
    by (rule imageI)
  with assms(2) show ?thesis by (simp add: removed_songs_of_eq)
qed


lemma ledger_written:
  "dot_sync w = Some (d\<lparr>sync_archive_json := Some \<lparr>indent = n, document = arch\<rparr>\<rparr>)
   \<Longrightarrow> ledger w = arch"
  by (simp add: ledger_def load_json_def isfile_def)

lemma run_sync_result:
  assumes "run_sync lib w = (None, self', w')" and "dot_sync w \<noteq> None"
  shows "\<exists>m pt content arch.
           fetched_meta lib w = Some m \<and> meta_title m = Some pt
           \<and> record_text (world_after_fetch lib w) = Some content
           \<and> (\<forall>l \<in> set (readlines content). id_field l \<noteq> None)
           \<and> add_entries (snapshot lib w) (ledger w) = (None, arch)
           \<and> ledger w' = filter (\<lambda>p. fst p \<notin> set (removed_songs_of (working_set lib w) content)) arch
           \<and> record_text w' = Some (concat (filter (\<lambda>l. \<not> removed_line (working_set lib w) l)
                                               (readlines content)))
           \<and> set (media w') \<subseteq> set (media (world_after_fetch lib w))
           \<and> (\<forall>k \<in> set (removed_songs_of (working_set lib w) content).
                 \<exists>outtmpl path f.
                   map_of (ytdl_opts (YoutubeSync_new w)) ''outtmpl'' = Some (JStr outtmpl)
                   \<and> percent_format lib outtmpl pt k ''*'' = Inr path
                   \<and> f \<in> set (media (world_after_fetch lib w))
                   \<and> fnmatch lib path f \<and> f \<notin> set (media w'))"
proof -
  let ?w2 = "world_after_fetch lib w"
  let ?rl = "working_set lib w"
  from run_sync_ok [OF assms] obtain self2 m es arch0 pt where
    sa: "sync_archive self2 = ledger w" and
    rl: "remove_list self2 = ?rl" and
    yo: "ytdl_opts self2 = AList.update ''download_archive''
           (JStr (archive_file (YoutubeSync_new w))) (ytdl_opts (YoutubeSync_new w))" and
    fm: "fetched_meta lib w = Some m" and
    sn: "snapshot lib w = es" and
    ae: "add_entries es (ledger w) = (None, arch0)" and
    mt: "meta_title m = Some pt" and
    uf: "update_files lib pt (self2\<lparr>sync_archive := arch0\<rparr>) ?w2 = (None, self', w')"
    by blast
  from update_files_ok [OF uf] obtain d content arch files where
    d: "dot_sync ?w2 = Some d" and t: "archive_txt d = Some content" and
    ok: "\<forall>l \<in> set (readlines content). id_field l \<noteq> None" and
    rs: "remove_songs lib (ytdl_opts self2) pt (removed_songs_of ?rl content)
           (arch0, media ?w2) = (None, arch, files)" and
    dw: "dot_sync w' = Some (d\<lparr>archive_txt :=
            Some (concat (filter (\<lambda>l. \<not> removed_line ?rl l) (readlines content))),
            sync_archive_json := Some \<lparr>indent = None, document = arch\<rparr>\<rparr>)" and
    mw: "media w' = files"
    by (auto simp: rl)
  note r = remove_songs_ok [OF rs]
  have ot: "map_of (ytdl_opts self2) ''outtmpl'' = map_of (ytdl_opts (YoutubeSync_new w)) ''outtmpl''"
    by (simp add: yo update_conv')
  have 1: "record_text ?w2 = Some content" by (simp add: record_text_def d t)
  have 2: "ledger w' = filter (\<lambda>p. fst p \<notin> set (removed_songs_of ?rl content)) arch0"
    using r by (simp add: ledger_def load_json_def isfile_def dw)
  have 3: "record_text w' = Some (concat (filter (\<lambda>l. \<not> removed_line ?rl l) (readlines content)))"
    by (simp add: record_text_def dw)
  have 4: "set (media w') \<subseteq> set (media ?w2)" using r mw by simp
  have 5: "\<forall>k \<in> set (removed_songs_of ?rl content).
             \<exists>outtmpl path f.
               map_of (ytdl_opts (YoutubeSync_new w)) ''outtmpl'' = Some (JStr outtmpl)
               \<and> percent_format lib outtmpl pt k ''*'' = Inr path
               \<and> f \<in> set (media ?w2) \<and> fnmatch lib path f \<and> f \<notin> set (media w')"
    using r mw ot by simp
  from fm mt 1 ok ae sn 2 3 4 5 show ?thesis by blast
qed


lemma sync_invalid_dir:
  "dot_sync w = None \<Longrightarrow>
   run_sync lib w =
     (None, YoutubeSync_new w,
      print (''Try running '' @ [CHR 0x27] @ ''youtube-sync --init'' @ [CHR 0x27])
        (print ''Cannot sync to an invalid dir'' w))"
  by (simp add: run_sync_def sync_def YoutubeSync_new_def Let_def)

subsection \<open>The pattern of the logger\<close>

lemma re_match_recorded:
  assumes "CHR 0x0A \<notin> set t"
  shows "re_match (download_tag @ t @ recorded_text) = Some t"
proof -
  let ?rest = "t @ recorded_text"
  let ?P = "\<lambda>n. prefix recorded_text (drop n ?rest)"
  let ?k = "length t" and ?m = "length t + length recorded_text"
  have nl: "CHR 0x0A \<notin> set recorded_text" by (simp add: recorded_text_def)
  have m: "length (takeWhile (\<lambda>c. c \<noteq> CHR 0x0A) ?rest) = ?m"
    using assms nl by (subst takeWhile_eq_all_conv [THEN iffD2]) auto
  have split: "[0..<Suc ?m] = [0..<?k] @ ?k # [Suc ?k..<Suc ?m]"
  proof -
    have "[0..<Suc ?m] = [0..<?k] @ [?k..<Suc ?m]"
      using upt_add_eq_append [of 0 ?k "Suc (length recorded_text)"] by simp
    moreover have "[?k..<Suc ?m] = ?k # [Suc ?k..<Suc ?m]"
      by (rule upt_conv_Cons) simp
    ultimately show ?thesis by (simp only:)
  qed
  have late: "filter ?P (rev [Suc ?k..<Suc ?m]) = []"
  proof -
    have "\<not> ?P n" if "n \<in> set [Suc ?k..<Suc ?m]" for n
    proof
      assume "?P n"
      then have "length recorded_text \<le> length (drop n ?rest)" by (rule prefix_length_le)
      then have "length recorded_text \<le> ?m - n" by (simp only: length_drop length_append)
      moreover from that have "Suc ?k \<le> n" by (simp del: upt_Suc)
      moreover have "0 < length recorded_text" by (simp add: recorded_text_def)
      ultimately show False by arith
    qed
    then show ?thesis by (simp add: filter_empty_conv)
  qed
  have here: "?P ?k" by simp
  have "filter ?P (rev [0..<Suc ?m]) = ?k # filter ?P (rev [0..<?k])"
    unfolding split using late here by (simp del: upt_Suc)
  then show ?thesis
    by (simp add: re_match_def Let_def m del: upt_Suc)
qed

subsection \<open>A run that finds nothing new\<close>







subsection \<open>The errors of the reconciliation\<close>




section \<open>The claims\<close>

subsection \<open>C1: titles that left the playlist\<close>

text \<open>
  Claim C1, as amended. Let a run with the folder present complete, and let \<open>t\<close> be a
  title that is still in the working set after the fetch, with id \<open>i\<close>, such that
  \<open>t\<close> is the first title of the working set with that id and \<open>i\<close> is the id field of
  some line of the download record. Then \<open>t\<close> is absent from the persisted archive
  ledger, no line of the rewritten download record has \<open>i\<close> as its id field, and the
  local media file of \<open>t\<close> is deleted: the path pattern built for \<open>t\<close> from the
  output template (playlist title, \<open>t\<close>, extension \<open>*\<close>) exists, and when exactly one
  media file matches it after the fetch, that file is gone after the run. Nothing is
  said of a pattern that several files match.
\<close>

theorem removed_title_reconciled:
  assumes "run_sync lib w = (None, self', w')" and "dot_sync w \<noteq> None"
      and "working_set lib w = pre @ (t, i) # post" and "i \<notin> snd ` set pre"
      and "record_text (world_after_fetch lib w) = Some content"
      and "l \<in> set (readlines content)" and "id_field l = Some i"
  shows "map_of (ledger w') t = None
         \<and> (\<exists>content'. record_text w' = Some content'
               \<and> (\<forall>l' \<in> set (readlines content'). id_field l' \<noteq> Some i))
         \<and> (\<exists>m pt outtmpl path.
               fetched_meta lib w = Some m \<and> meta_title m = Some pt
               \<and> map_of (ytdl_opts (YoutubeSync_new w)) ''outtmpl'' = Some (JStr outtmpl)
               \<and> percent_format lib outtmpl pt t ''*'' = Inr path
               \<and> (\<forall>f. glob lib path (media (world_after_fetch lib w)) = [f]
                      \<longrightarrow> f \<notin> set (media w')))"
proof -
  let ?rl = "working_set lib w"
  let ?files = "media (world_after_fetch lib w)"
  from run_sync_result [OF assms(1,2)] assms(5) obtain m pt arch where
    fm: "fetched_meta lib w = Some m" and mt: "meta_title m = Some pt" and
    lw: "ledger w' = filter (\<lambda>p. fst p \<notin> set (removed_songs_of ?rl content)) arch" and
    rt: "record_text w' = Some (concat (filter (\<lambda>l. \<not> removed_line ?rl l) (readlines content)))" and
    del: "\<forall>k \<in> set (removed_songs_of ?rl content).
             \<exists>outtmpl path f.
               map_of (ytdl_opts (YoutubeSync_new w)) ''outtmpl'' = Some (JStr outtmpl)
               \<and> percent_format lib outtmpl pt k ''*'' = Inr path
               \<and> f \<in> set ?files
               \<and> fnmatch lib path f \<and> f \<notin> set (media w')"
    by auto
  have first: "title_of_id ?rl i = t"
    by (rule title_of_id_first [OF assms(3,4)])
  have iin: "i \<in> snd ` set ?rl"
    by (simp add: assms(3) image_Un)
  have tin: "t \<in> set (removed_songs_of ?rl content)"
    using removed_songs_mem [OF assms(6,7) iin] first by simp
  have a: "map_of (ledger w') t = None"
    using tin by (simp add: lw map_of_filter_keys)
  have "\<forall>l' \<in> set (readlines (concat (filter (\<lambda>l. \<not> removed_line ?rl l) (readlines content)))).
          id_field l' \<noteq> Some i"
    using iin by (auto simp: readlines_concat_filter removed_line_def split: option.splits)
  with rt have b: "\<exists>content'. record_text w' = Some content'
               \<and> (\<forall>l' \<in> set (readlines content'). id_field l' \<noteq> Some i)"
    by blast
  from del tin obtain outtmpl path f where
    ot: "map_of (ytdl_opts (YoutubeSync_new w)) ''outtmpl'' = Some (JStr outtmpl)" and
    pf: "percent_format lib outtmpl pt t ''*'' = Inr path" and
    fin: "f \<in> set ?files" and fmatch: "fnmatch lib path f" and gone: "f \<notin> set (media w')"
    by blast
  have only: "f' \<notin> set (media w')" if "glob lib path ?files = [f']" for f'
  proof -
    from fin fmatch have "f \<in> set (glob lib path ?files)" by (simp add: glob_def)
    with that have "f = f'" by simp
    with gone show ?thesis by simp
  qed
  from fm mt ot pf only have c: "\<exists>m pt outtmpl path.
               fetched_meta lib w = Some m \<and> meta_title m = Some pt
               \<and> map_of (ytdl_opts (YoutubeSync_new w)) ''outtmpl'' = Some (JStr outtmpl)
               \<and> percent_format lib outtmpl pt t ''*'' = Inr path
               \<and> (\<forall>f. glob lib path ?files = [f] \<longrightarrow> f \<notin> set (media w'))"
    by blast
  from a b c show ?thesis by blast
qed

theorem removed_title_reconciled_witness:
  "map_of (ledger (snd (snd (run_sync scen_lib scen_world)))) ''Song B'' = None
   \<and> glob scen_lib ''./PL/Song B.*'' (media (world_after_fetch scen_lib scen_world))
       = [''./PL/Song B.m4a'']
   \<and> ''./PL/Song B.m4a'' \<notin> set (media (snd (snd (run_sync scen_lib scen_world))))"
proof -
  let ?w' = "snd (snd (run_sync scen_lib scen_world))"
  let ?files = "media (world_after_fetch scen_lib scen_world)"
  have "map_of (ledger ?w') ''Song B'' = None
   \<and> (\<exists>content'. record_text ?w' = Some content'
         \<and> (\<forall>l' \<in> set (readlines content'). id_field l' \<noteq> Some ''id2''))
   \<and> (\<exists>m pt outtmpl path.
         fetched_meta scen_lib scen_world = Some m \<and> meta_title m = Some pt
         \<and> map_of (ytdl_opts (YoutubeSync_new scen_world)) ''outtmpl'' = Some (JStr outtmpl)
         \<and> percent_format scen_lib outtmpl pt ''Song B'' ''*'' = Inr path
         \<and> (\<forall>f. glob scen_lib path ?files = [f] \<longrightarrow> f \<notin> set (media ?w')))"
  proof (rule removed_title_reconciled
      [where pre = "[]" and post = "[]" and l = "''youtube id2\<newline>''"
         and content = "''youtube id1\<newline>youtube id2\<newline>''"
         and self' = "fst (snd (run_sync scen_lib scen_world))"])
    have "fst (run_sync scen_lib scen_world) = None" by code_simp
    then show "run_sync scen_lib scen_world
        = (None, fst (snd (run_sync scen_lib scen_world)), ?w')"
      by (simp add: prod_eq_iff)
    show "dot_sync scen_world \<noteq> None" by code_simp
    show "working_set scen_lib scen_world = [] @ (''Song B'', ''id2'') # []" by code_simp
    show "''id2'' \<notin> snd ` set []" by simp
    show "record_text (world_after_fetch scen_lib scen_world)
            = Some ''youtube id1\<newline>youtube id2\<newline>''" by code_simp
    show "''youtube id2\<newline>'' \<in> set (readlines ''youtube id1\<newline>youtube id2\<newline>'')"
      by code_simp
    show "id_field ''youtube id2\<newline>'' = Some ''id2''" by code_simp
  qed
  then obtain m pt outtmpl path where
    led: "map_of (ledger ?w') ''Song B'' = None" and
    fm: "fetched_meta scen_lib scen_world = Some m" and mt: "meta_title m = Some pt" and
    pf: "percent_format scen_lib outtmpl pt ''Song B'' ''*'' = Inr path" and
    only: "\<forall>f. glob scen_lib path ?files = [f] \<longrightarrow> f \<notin> set (media ?w')"
    by blast
  have "fetched_meta scen_lib scen_world = Some (ex_meta [])" by code_simp
  with fm mt have "pt = ''PL''" by (auto simp: ex_meta_def)
  with pf have path: "path = ''./PL/Song B.*''"
    by (simp add: scen_lib_def ex_lib_def)
  have one: "glob scen_lib ''./PL/Song B.*'' ?files = [''./PL/Song B.m4a'']" by code_simp
  with only path have "''./PL/Song B.m4a'' \<notin> set (media ?w')" by blast
  with led one show ?thesis by blast
qed

text \<open>
  Claim C1 as stated fails. The ledger holds \<open>Song B\<close> with id \<open>id2\<close>, the fetch reports
  nothing, so \<open>Song B\<close> is still in the working set; the download record has no line
  with \<open>id2\<close>. The run completes; \<open>Song B\<close> is still in the persisted ledger and its
  file is still there.
\<close>

theorem removed_title_counterexample:
  "fst (run_sync unlisted_lib unlisted_world) = None
   \<and> map_of (ledger unlisted_world) ''Song B'' = Some ''id2''
   \<and> map_of (working_set unlisted_lib unlisted_world) ''Song B'' = Some ''id2''
   \<and> map_of (ledger (snd (snd (run_sync unlisted_lib unlisted_world)))) ''Song B''
       = Some ''id2''
   \<and> ''./PL/Song B.m4a'' \<in> set (media (snd (snd (run_sync unlisted_lib unlisted_world))))"
  by code_simp

subsection \<open>C2: a second run with no remote change\<close>




subsection \<open>C3: init on an initialized folder\<close>

text \<open>
  Claim C3, as amended. On a folder that is already initialized (the folder, the sync
  config file and the fetcher-options file exist), \<open>init\<close> with a playlist link ends
  without error and leaves the whole world as it was: the folder and both files are
  not written again, and the sync config file keeps the link it had. Only the sync
  config of the running object gets the new link.
\<close>

theorem init_again:
  assumes "dot_sync w = Some d" and "sync_config_conf d \<noteq> None" and "ytdl_opts_conf d \<noteq> None"
  shows "\<exists>self'. run_init playlist_link w = (None, self', w)
           \<and> map_of (sync_config self') ''playlist_link'' = Some (JStr playlist_link)"
  using assms
  by (auto simp: run_init_def init_def YoutubeSync_new_def Let_def isfile_def update_conv')

theorem init_again_witness:
  "\<exists>self'. run_init ''B'' (ex_world [] [] []) = (None, self', ex_world [] [] [])
      \<and> map_of (sync_config self') ''playlist_link'' = Some (JStr ''B'')"
  by (rule init_again [of _ "ex_folder [] []"])
     (simp_all add: ex_world_def ex_folder_def)

text \<open>
  Claim C3 as stated fails: the stored link is \<open>A\<close>, \<open>init\<close> is called with \<open>B\<close>, and
  the sync config file still holds \<open>A\<close>.
\<close>

theorem init_again_counterexample:
  "map_of (load_json sync_config_conf [] (ex_world [] [] [])) ''playlist_link''
     = Some (JStr ''A'')
   \<and> map_of (load_json sync_config_conf [] (snd (snd (run_init ''B'' (ex_world [] [] []))))) 
       ''playlist_link'' = Some (JStr ''A'')"
  by (simp add: run_init_def init_def YoutubeSync_new_def Let_def isfile_def
        ex_world_def ex_folder_def load_json_def)

subsection \<open>C4: sync without the folder\<close>

text \<open>
  Claim C4, as amended. Where the \<open>.sync\<close> folder is missing, \<open>sync\<close> raises nothing: it
  prints two lines and returns normally. The fetch is not run and nothing is reconciled:
  the folder is still missing, the media files are the same, and the result is the same
  for every library.
\<close>

theorem sync_without_folder_returns:
  assumes "dot_sync w = None"
  shows "fst (run_sync lib w) = None
         \<and> dot_sync (snd (snd (run_sync lib w))) = None
         \<and> media (snd (snd (run_sync lib w))) = media w
         \<and> stdout (snd (snd (run_sync lib w))) =
             stdout w @ [''Cannot sync to an invalid dir'',
                         ''Try running '' @ [CHR 0x27] @ ''youtube-sync --init'' @ [CHR 0x27]]
         \<and> run_sync lib w = run_sync lib' w"
  using assms by (simp add: sync_invalid_dir print_def)

theorem sync_without_folder_returns_witness:
  "dot_sync uninit_world = None
   \<and> fst (run_sync (ex_lib (ex_fetch [] [] [] [])) uninit_world) = None
   \<and> stdout (snd (snd (run_sync (ex_lib (ex_fetch [] [] [] [])) uninit_world))) =
       [''Cannot sync to an invalid dir'',
        ''Try running '' @ [CHR 0x27] @ ''youtube-sync --init'' @ [CHR 0x27]]"
proof -
  have h: "dot_sync uninit_world = None" by (simp add: uninit_world_def)
  have s: "stdout uninit_world = []" by (simp add: uninit_world_def)
  show ?thesis
    using h s sync_without_folder_returns [OF h, of "ex_lib (ex_fetch [] [] [] [])"]
    by simp
qed

text \<open>
  Claim C4 as stated fails: with the folder missing, \<open>sync\<close> does not end in an error.
\<close>

theorem sync_without_folder_counterexample:
  "dot_sync uninit_world = None
   \<and> fst (run_sync (ex_lib (ex_fetch [] [] [] [])) uninit_world) = None"
  by (simp add: sync_invalid_dir uninit_world_def)

subsection \<open>C5: the test for a playlist\<close>



subsection \<open>C6: sync without a playlist link\<close>

text \<open>
  Claim C6. Where the \<open>.sync\<close> folder exists and the sync config has no playlist link
  (the key is absent, also because the file is, or its value is empty or otherwise
  false), \<open>sync\<close> raises NoPlaylistLink; the world is unchanged, nothing is printed, and
  this holds for every library: the fetcher has no part in the result.
\<close>

theorem sync_no_link:
  assumes "dot_sync w \<noteq> None"
      and "(case map_of (load_json sync_config_conf [] w) ''playlist_link'' of
              None \<Rightarrow> True | Some v \<Rightarrow> \<not> truthy v)"
  shows "run_sync lib w = (Some NoPlaylistLink, YoutubeSync_new w, w)"
  using assms
  by (auto simp: run_sync_def sync_def YoutubeSync_new_def Let_def split: option.splits)

theorem sync_no_link_witness:
  "run_sync (ex_lib (ex_fetch [] [] [] [])) nolink_world
     = (Some NoPlaylistLink, YoutubeSync_new nolink_world, nolink_world)"
  by (rule sync_no_link)
     (simp_all add: nolink_world_def load_json_def isfile_def)

subsection \<open>C7: entries that stay\<close>

text \<open>
  Claim C7, as amended. Let a run with the folder present complete. For every entry
  \<open>(t, i)\<close> that is in the archive ledger loaded at the start and in the snapshot, such
  that no entry of the snapshot with title \<open>t\<close> has another id and \<open>t\<close> is not left in
  the working set after the fetch, the persisted ledger maps \<open>t\<close> to \<open>i\<close> as before.
\<close>

theorem kept_entry_same_id:
  assumes "run_sync lib w = (None, self', w')" and "dot_sync w \<noteq> None"
      and "map_of (ledger w) t = Some i"
      and "Some (t, i) \<in> set (snapshot lib w)"
      and "\<forall>i'. Some (t, i') \<in> set (snapshot lib w) \<longrightarrow> i' = i"
      and "t \<notin> fst ` set (working_set lib w)"
  shows "map_of (ledger w') t = Some i"
proof -
  from run_sync_result [OF assms(1,2)] obtain content arch where
    ae: "add_entries (snapshot lib w) (ledger w) = (None, arch)" and
    lw: "ledger w' = filter (\<lambda>p. fst p \<notin> set (removed_songs_of (working_set lib w) content)) arch"
    by blast
  have "map_of arch t = Some i"
    by (rule add_entries_same [OF ae assms(3,5)])
  moreover have "t \<notin> set (removed_songs_of (working_set lib w) content)"
    using removed_songs_subset [of "working_set lib w" content] assms(6) by blast
  ultimately show ?thesis by (simp add: lw map_of_filter_keys)
qed


theorem kept_entry_same_id_witness:
  "map_of (ledger (snd (snd (run_sync same_lib dup_world)))) ''Song A'' = Some ''id1''"
proof (rule kept_entry_same_id [where self' = "fst (snd (run_sync same_lib dup_world))"])
  have "fst (run_sync same_lib dup_world) = None" by code_simp
  then show "run_sync same_lib dup_world
      = (None, fst (snd (run_sync same_lib dup_world)), snd (snd (run_sync same_lib dup_world)))"
    by (simp add: prod_eq_iff)
  show "dot_sync dup_world \<noteq> None" by code_simp
  show "map_of (ledger dup_world) ''Song A'' = Some ''id1''" by code_simp
  have s: "snapshot same_lib dup_world = [Some (''Song A'', ''id1'')]" by code_simp
  show "Some (''Song A'', ''id1'') \<in> set (snapshot same_lib dup_world)"
    by (simp add: s)
  show "\<forall>i'. Some (''Song A'', i') \<in> set (snapshot same_lib dup_world) \<longrightarrow> i' = ''id1''"
    by (simp add: s)
  have "working_set same_lib dup_world = []" by code_simp
  then show "''Song A'' \<notin> fst ` set (working_set same_lib dup_world)" by simp
qed

text \<open>
  Claim C7 as stated fails. The ledger holds \<open>Song A\<close> with id \<open>id1\<close>; the snapshot has
  that entry, and after it another entry titled \<open>Song A\<close> with id \<open>id9\<close>. The run
  completes, and the ledger maps \<open>Song A\<close> to \<open>id9\<close>.
\<close>

theorem kept_entry_counterexample:
  "fst (run_sync dup_lib dup_world) = None
   \<and> map_of (ledger dup_world) ''Song A'' = Some ''id1''
   \<and> Some (''Song A'', ''id1'') \<in> set (snapshot dup_lib dup_world)
   \<and> map_of (ledger (snd (snd (run_sync dup_lib dup_world)))) ''Song A'' = Some ''id9''"
  by code_simp

subsection \<open>C8: persisting the archive ledger and loading it back\<close>

lemma write_then_load:
  assumes "dot_sync w = Some d"
  shows "\<exists>w'. write_json sync_archive_json_update arch pretty w = Inr w'
           \<and> load_json sync_archive_json default_val w' = arch
           \<and> sync_archive (YoutubeSync_new w') = arch"
proof -
  define f :: "archive json_file"
    where "f = (if pretty then \<lparr>indent = Some 4, document = arch\<rparr>
                else \<lparr>indent = None, document = arch\<rparr>)"
  define w' where "w' = w\<lparr>dot_sync := Some (d\<lparr>sync_archive_json := Some f\<rparr>)\<rparr>"
  have doc: "document f = arch" by (simp add: f_def)
  have "write_json sync_archive_json_update arch pretty w = Inr w'"
    by (simp add: write_json_def assms w'_def f_def)
  moreover have "load_json sync_archive_json default_val w' = arch"
    by (simp add: load_json_def isfile_def w'_def doc)
  moreover have "sync_archive (YoutubeSync_new w') = arch"
    by (simp add: YoutubeSync_new_def Let_def load_json_def isfile_def w'_def doc)
  ultimately show ?thesis by blast
qed

lemma completed_run_reloads:
  assumes "run_sync lib w = (None, self', w')" and "dot_sync w \<noteq> None"
  shows "sync_archive (YoutubeSync_new w') = sync_archive self'"
proof -
  from run_sync_ok [OF assms] obtain self2 arch0 pt where
    "update_files lib pt (self2\<lparr>sync_archive := arch0\<rparr>) (world_after_fetch lib w)
       = (None, self', w')"
    by blast
  from update_files_ok [OF this] obtain d content arch where
    "dot_sync w' = Some (d\<lparr>archive_txt :=
        Some (concat (filter (\<lambda>l. \<not> removed_line (remove_list (self2\<lparr>sync_archive := arch0\<rparr>)) l)
                        (readlines content))),
        sync_archive_json := Some \<lparr>indent = None, document = arch\<rparr>\<rparr>)"
    and "sync_archive self' = arch"
    by blast
  then show ?thesis
    by (simp add: ledger_def load_json_def isfile_def)
qed

text \<open>
  Claim C8. For every title-to-id mapping \<open>arch\<close>: where the \<open>.sync\<close> folder exists,
  \<open>write_json\<close> of \<open>arch\<close> to \<open>sync_archive.json\<close> (pretty or not) succeeds, and
  \<open>load_json\<close> of that file then gives \<open>arch\<close> back, whatever the default; so does the
  constructor of the next run. The JSON text itself is the work of the \<open>json\<close> library:
  the file holds the document it was given. In a run this is \<open>completed_run_reloads\<close>:
  the next run starts with the archive the completed run ended with.
\<close>

theorem archive_round_trip:
  assumes "dot_sync w \<noteq> None"
  shows "\<exists>w'. write_json sync_archive_json_update arch pretty w = Inr w'
           \<and> load_json sync_archive_json default_val w' = arch
           \<and> sync_archive (YoutubeSync_new w') = arch"
proof -
  from assms obtain d where "dot_sync w = Some d" by auto
  then show ?thesis by (rule write_then_load)
qed

theorem archive_round_trip_witness:
  "dot_sync nolink_world \<noteq> None
   \<and> (\<exists>w'. write_json sync_archive_json_update [(''Song A'', ''id1'')] False nolink_world
             = Inr w'
           \<and> load_json sync_archive_json [] w' = [(''Song A'', ''id1'')]
           \<and> sync_archive (YoutubeSync_new w') = [(''Song A'', ''id1'')])"
proof -
  have h: "dot_sync nolink_world \<noteq> None" by (simp add: nolink_world_def)
  show ?thesis
    using h archive_round_trip [OF h, of "[(''Song A'', ''id1'')]" False "[]"] by simp
qed

subsection \<open>C9: two entries with one title\<close>

text \<open>
  Claim C9, as amended. Let a run with the folder present complete, and let the
  snapshot hold an entry \<open>(t, a)\<close> and, later, an entry \<open>(t, b)\<close> with another id, with
  no entry titled \<open>t\<close> after it. If \<open>t\<close> is not left in the working set after the fetch,
  the persisted ledger maps \<open>t\<close> to \<open>b\<close>, the id of the later entry.
\<close>

theorem later_entry_wins:
  assumes "run_sync lib w = (None, self', w')" and "dot_sync w \<noteq> None"
      and "snapshot lib w = pre @ Some (t, a) # mid @ Some (t, b) # post"
      and "a \<noteq> b"
      and "\<forall>i. Some (t, i) \<notin> set post"
      and "t \<notin> fst ` set (working_set lib w)"
  shows "map_of (ledger w') t = Some b"
proof -
  from run_sync_result [OF assms(1,2)] obtain content arch where
    ae: "add_entries (snapshot lib w) (ledger w) = (None, arch)" and
    lw: "ledger w' = filter (\<lambda>p. fst p \<notin> set (removed_songs_of (working_set lib w) content)) arch"
    by blast
  from ae assms(3)
  have "add_entries ((pre @ Some (t, a) # mid) @ Some (t, b) # post) (ledger w) = (None, arch)"
    by simp
  then have "map_of arch t = Some b"
    using assms(5) by (rule add_entries_later)
  moreover have "t \<notin> set (removed_songs_of (working_set lib w) content)"
    using removed_songs_subset [of "working_set lib w" content] assms(6) by blast
  ultimately show ?thesis by (simp add: lw map_of_filter_keys)
qed


theorem later_entry_wins_witness:
  "map_of (ledger (snd (snd (run_sync fresh_lib fresh_world)))) ''T'' = Some ''c''"
proof (rule later_entry_wins
    [where self' = "fst (snd (run_sync fresh_lib fresh_world))"
       and pre = "[]" and mid = "[]" and post = "[]" and a = "''b''"])
  have "fst (run_sync fresh_lib fresh_world) = None" by code_simp
  then show "run_sync fresh_lib fresh_world
      = (None, fst (snd (run_sync fresh_lib fresh_world)),
         snd (snd (run_sync fresh_lib fresh_world)))"
    by (simp add: prod_eq_iff)
  show "dot_sync fresh_world \<noteq> None" by code_simp
  show "snapshot fresh_lib fresh_world = [] @ Some (''T'', ''b'') # [] @ Some (''T'', ''c'') # []"
    by code_simp
  show "''b'' \<noteq> ''c''" by simp
  show "\<forall>i. Some (''T'', i) \<notin> set []" by simp
  have "working_set fresh_lib fresh_world = []" by code_simp
  then show "''T'' \<notin> fst ` set (working_set fresh_lib fresh_world)" by simp
qed

text \<open>
  Claim C9 as stated fails. The ledger holds \<open>T\<close> with id \<open>a\<close>, whose entry left the
  playlist; the snapshot has two new entries titled \<open>T\<close>, with ids \<open>b\<close> and \<open>c\<close>. The
  fetch does not report \<open>T\<close>, so it stays in the working set, and the line of \<open>a\<close> is in
  the download record: the run completes, and \<open>T\<close> is not in the ledger at all.
\<close>

theorem later_entry_counterexample:
  "fst (run_sync reused_lib reused_world) = None
   \<and> snapshot reused_lib reused_world = [Some (''T'', ''b''), Some (''T'', ''c'')]
   \<and> map_of (ledger (snd (snd (run_sync reused_lib reused_world)))) ''T'' = None"
  by code_simp

subsection \<open>C10: a line of fewer than two fields\<close>

text \<open>
  Claim C10. When a run gets as far as \<open>_update_files\<close> and the download record, as the
  fetch left it, has a line of fewer than two whitespace-separated fields (a blank line
  for example), \<open>line.split()[1]\<close> raises IndexError: the run ends with that error, and
  \<open>sync_archive.json\<close> is what it was before the run, for the archive ledger is
  persisted only after the loop.
\<close>

theorem short_line_aborts:
  assumes "reaches_update_files lib w"
      and "record_text (world_after_fetch lib w) = Some content"
      and "line \<in> set (readlines content)"
      and "length (str_split line) < 2"
  shows "fst (run_sync lib w) = Some IndexError
         \<and> map_option sync_archive_json (dot_sync (snd (snd (run_sync lib w))))
             = map_option sync_archive_json (dot_sync w)"
proof -
  from run_sync_reaches [OF assms(1)] obtain self2 arch pt where
    r: "run_sync lib w
          = update_files lib pt (self2\<lparr>sync_archive := arch\<rparr>) (world_after_fetch lib w)"
    by blast
  obtain fr s2 w2 where fd: "fetched lib w = (fr, s2, w2)" by (cases "fetched lib w")
  from assms(1) obtain link where
    l: "map_of (sync_config (YoutubeSync_new w)) ''playlist_link'' = Some link"
    by (auto simp: reaches_update_files_def split: option.splits)
  from fd l have "fetch lib link (YoutubeSync_new w) w = (fr, s2, w2)"
    by (simp add: fetched_def Let_def)
  from fetch_facts(4) [OF this]
  have "map_option sync_archive_json (dot_sync (world_after_fetch lib w))
          = map_option sync_archive_json (dot_sync w)"
    by (cases "dot_sync w") (simp_all add: world_after_fetch_def fd)
  with update_files_short_line [OF assms(2,3,4), of lib pt "self2\<lparr>sync_archive := arch\<rparr>"] r
  show ?thesis by simp
qed


theorem short_line_aborts_witness:
  "fst (run_sync blank_lib blank_world) = Some IndexError
   \<and> map_option sync_archive_json (dot_sync (snd (snd (run_sync blank_lib blank_world))))
       = map_option sync_archive_json (dot_sync blank_world)"
proof (rule short_line_aborts [where content = blank_text and line = "''\<newline>''"])
  show "reaches_update_files blank_lib blank_world"
    by (simp add: reaches_update_files_def blank_lib_def blank_world_def ex_lib_def ex_world_def
          ex_folder_def ex_fetch_def ex_meta_def YoutubeSync_new_def load_json_def isfile_def
          fetched_meta_def fetched_def fetch_def Let_def raises_not_playlist_def is_not_def
          lit_playlist_def)
  show "record_text (world_after_fetch blank_lib blank_world) = Some blank_text"
    by (simp add: record_text_def world_after_fetch_def fetched_def fetch_def Let_def
          after_fetch_def blank_lib_def blank_world_def ex_lib_def ex_world_def ex_fetch_def)
  show "''\<newline>'' \<in> set (readlines blank_text)"
    by (simp add: blank_text_def)
  show "length (str_split ''\<newline>'') < 2"
    by (simp add: str_split_Cons isspace_def)
qed

end
